theory Spec2Isabelle
  imports Main
begin

section \<open>Data model of \<open>spot_wrapper/spot_images.py\<close>\<close>

text \<open>
  The module is a catalog of image requests and a dispatch layer over the vendor's image
  client. Strings are the camera names, image types and source names of the module.
  The logger and the remote client are the two effects: every method takes the trace of
  what has been logged and sent so far and returns the extended one.
\<close>

datatype image_format = FORMAT_UNKNOWN | FORMAT_JPEG | FORMAT_RAW | FORMAT_RLE

datatype pixel_format =
    PIXEL_FORMAT_UNKNOWN
  | PIXEL_FORMAT_GREYSCALE_U8
  | PIXEL_FORMAT_RGB_U8
  | PIXEL_FORMAT_RGBA_U8
  | PIXEL_FORMAT_DEPTH_U16
  | PIXEL_FORMAT_GREYSCALE_U16

record image_request =
  image_source_name :: string
  quality_percent :: nat
  req_image_format :: "image_format option"
  req_pixel_format :: "pixel_format option"

text \<open>
  Modelled from the spec: \<open>build_image_request\<close> is imported from the vendor SDK
  (\<open>bosdyn.client.image\<close>) and is not part of the repository. The spec describes a request
  descriptor as the tuple of source name, image encoding, pixel format and quality hint;
  the function builds that tuple from its arguments. An argument the caller leaves out is
  \<open>None\<close> for the two formats and \<open>default_quality_percent\<close> for the quality.
\<close>

definition default_quality_percent :: nat where
  "default_quality_percent = 75"

definition build_image_request ::
  "string \<Rightarrow> nat \<Rightarrow> image_format option \<Rightarrow> pixel_format option \<Rightarrow> image_request" where
  "build_image_request src q ifmt pfmt =
     \<lparr>image_source_name = src, quality_percent = q,
      req_image_format = ifmt, req_pixel_format = pfmt\<rparr>"

text \<open>Exceptions that can leave a method of the class.\<close>

datatype exn =
    UnsupportedPixelFormatRequestedError string
  | OtherClientError string
  | IndexError

text \<open>
  \<open>ImageClient.get_image\<close>: a batch of requests goes in, a list of opaque responses comes
  back, or the call raises.
\<close>

type_synonym 'r client = "image_request list \<Rightarrow> exn + 'r list"

datatype log_entry = Info string | Error string

record trace =
  logged :: "log_entry list"
  rpc_calls :: "image_request list list"

definition logger_info :: "string \<Rightarrow> trace \<Rightarrow> trace" where
  "logger_info msg tr = tr\<lparr>logged := logged tr @ [Info msg]\<rparr>"

definition logger_error :: "string \<Rightarrow> trace \<Rightarrow> trace" where
  "logger_error msg tr = tr\<lparr>logged := logged tr @ [Error msg]\<rparr>"

definition get_image :: "'r client \<Rightarrow> image_request list \<Rightarrow> trace \<Rightarrow> (exn + 'r list) \<times> trace" where
  "get_image client reqs tr = (client reqs, tr\<lparr>rpc_calls := rpc_calls tr @ [reqs]\<rparr>)"

text \<open>Python's \<open>xs[i]\<close> for a non-negative literal index.\<close>

definition item :: "'a list \<Rightarrow> nat \<Rightarrow> exn + 'a" where
  "item xs i = (if i < length xs then Inr (xs ! i) else Inl IndexError)"

text \<open>\<open>str.startswith\<close>.\<close>

definition startswith :: "string \<Rightarrow> string \<Rightarrow> bool" where
  "startswith s p = (take (length p) s = p)"

subsection \<open>Module constants\<close>

definition CAMERA_IMAGE_SOURCES :: "string list" where
  "CAMERA_IMAGE_SOURCES =
     [''frontleft_fisheye_image'',
      ''frontright_fisheye_image'',
      ''left_fisheye_image'',
      ''right_fisheye_image'',
      ''back_fisheye_image'']"

definition DEPTH_IMAGE_SOURCES :: "string list" where
  "DEPTH_IMAGE_SOURCES =
     [''frontleft_depth'',
      ''frontright_depth'',
      ''left_depth'',
      ''right_depth'',
      ''back_depth'']"

definition DEPTH_REGISTERED_IMAGE_SOURCES :: "string list" where
  "DEPTH_REGISTERED_IMAGE_SOURCES =
     [''frontleft_depth_in_visual_frame'',
      ''frontright_depth_in_visual_frame'',
      ''right_depth_in_visual_frame'',
      ''left_depth_in_visual_frame'',
      ''back_depth_in_visual_frame'']"

text \<open>
  The two named tuples. \<open>bundle_fields\<close> is the tuple read as (slot name, value) pairs in
  field order.
\<close>

datatype 'r image_bundle =
    ImageBundle 'r 'r 'r 'r 'r
  | ImageWithHandBundle 'r 'r 'r 'r 'r 'r

fun bundle_fields :: "'r image_bundle \<Rightarrow> (string \<times> 'r) list" where
  "bundle_fields (ImageBundle fl fr l r b) =
     [(''frontleft'', fl), (''frontright'', fr), (''left'', l), (''right'', r), (''back'', b)]"
| "bundle_fields (ImageWithHandBundle fl fr l r b h) =
     [(''frontleft'', fl), (''frontright'', fr), (''left'', l), (''right'', r), (''back'', b),
      (''hand'', h)]"

text \<open>
  A dict literal keeps its insertion order, so the nested dict is an association list of
  association lists.
\<close>

definition IMAGE_SOURCES_BY_CAMERA :: "(string \<times> (string \<times> string) list) list" where
  "IMAGE_SOURCES_BY_CAMERA =
     [(''frontleft'',
         [(''visual'', ''frontleft_fisheye_image''),
          (''depth'', ''frontleft_depth''),
          (''depth_registered'', ''frontleft_depth_in_visual_frame'')]),
      (''frontright'',
         [(''visual'', ''frontright_fisheye_image''),
          (''depth'', ''frontright_depth''),
          (''depth_registered'', ''frontright_depth_in_visual_frame'')]),
      (''left'',
         [(''visual'', ''left_fisheye_image''),
          (''depth'', ''left_depth''),
          (''depth_registered'', ''left_depth_in_visual_frame'')]),
      (''right'',
         [(''visual'', ''right_fisheye_image''),
          (''depth'', ''right_depth''),
          (''depth_registered'', ''right_depth_in_visual_frame'')]),
      (''back'',
         [(''visual'', ''back_fisheye_image''),
          (''depth'', ''back_depth''),
          (''depth_registered'', ''back_depth_in_visual_frame'')]),
      (''hand'',
         [(''visual'', ''hand_color_image''),
          (''depth'', ''hand_depth''),
          (''depth_registered'', ''hand_depth_in_hand_color_frame'')])]"

definition IMAGE_TYPES :: "string set" where
  "IMAGE_TYPES = {''visual'', ''depth'', ''depth_registered''}"

record CameraSource =
  camera_name :: string
  image_types :: "string list option"

datatype 'r ImageEntry = ImageEntry string string 'r

subsection \<open>The class and its constructor\<close>

type_synonym request_table = "(string \<times> (string \<times> image_request) list) list"

record 'r SpotImages =
  robot_has_arm :: bool
  rgb_cameras :: bool
  image_client :: "'r client"
  camera_image_requests :: "image_request list"
  depth_image_requests :: "image_request list"
  depth_registered_image_requests :: "image_request list"
  image_requests_by_camera :: request_table

text \<open>
  Assignment \<open>d[k] = v\<close> on a dict held as an association list: an existing key keeps its
  place, a new key goes to the end.
\<close>

fun dict_set :: "'k \<Rightarrow> 'v \<Rightarrow> ('k \<times> 'v) list \<Rightarrow> ('k \<times> 'v) list" where
  "dict_set k v [] = [(k, v)]"
| "dict_set k v (p # ps) = (if fst p = k then (k, v) # ps else p # dict_set k v ps)"

text \<open>
  The state of the loop that builds the table: the trace, the table so far, and the two
  local variables \<open>image_format\<close> and \<open>pixel_format\<close>, which live across iterations
  (\<open>None\<close> before the first assignment).
\<close>

record table_loop =
  loop_trace :: trace
  loop_table :: request_table
  var_image_format :: "image_format option"
  var_pixel_format :: "pixel_format option"

definition greyscale_message :: "string \<Rightarrow> string \<Rightarrow> string" where
  "greyscale_message camera image_type =
     ''Switching '' @ camera @ '':'' @ image_type @ '' to greyscale image format.''"

text \<open>
  One iteration of the inner loop, lines 163 to 184. The inner loop runs over the keys of
  \<open>IMAGE_SOURCES_BY_CAMERA[camera]\<close> and reads the source back under the same key; here it
  runs over the (key, source) pairs.
\<close>

definition table_image_type :: "bool \<Rightarrow> string \<Rightarrow> table_loop \<Rightarrow> string \<times> string \<Rightarrow> table_loop" where
  "table_image_type rgb camera st entry =
     (let image_type = fst entry;
          source = snd entry;
          st1 =
            (if startswith image_type ''depth'' then
               st\<lparr>var_image_format := Some FORMAT_RAW,
                  var_pixel_format := Some PIXEL_FORMAT_DEPTH_U16\<rparr>
             else
               (let st0 = st\<lparr>var_image_format := Some FORMAT_JPEG\<rparr> in
                if camera = ''hand'' \<or> rgb then
                  st0\<lparr>var_pixel_format := Some PIXEL_FORMAT_RGB_U8\<rparr>
                else if camera \<noteq> ''hand'' then
                  st0\<lparr>loop_trace := logger_info (greyscale_message camera image_type) (loop_trace st0),
                      var_pixel_format := Some PIXEL_FORMAT_GREYSCALE_U8\<rparr>
                else st0));
          request = build_image_request source 75 (var_image_format st1) (var_pixel_format st1);
          row = (case map_of (loop_table st1) camera of Some r \<Rightarrow> r | None \<Rightarrow> [])
      in st1\<lparr>loop_table := dict_set camera (dict_set image_type request row) (loop_table st1)\<rparr>)"

text \<open>One iteration of the outer loop, lines 157 to 184.\<close>

definition table_camera :: "bool \<Rightarrow> bool \<Rightarrow> table_loop \<Rightarrow> string \<times> (string \<times> string) list \<Rightarrow> table_loop" where
  "table_camera has_arm rgb st entry =
     (let camera = fst entry in
      if camera = ''hand'' \<and> \<not> has_arm then st
      else foldl (table_image_type rgb camera)
             (st\<lparr>loop_table := dict_set camera [] (loop_table st)\<rparr>) (snd entry))"

text \<open>\<open>SpotImages.__init__\<close>.\<close>

definition init :: "bool \<Rightarrow> 'r client \<Rightarrow> bool \<Rightarrow> trace \<Rightarrow> 'r SpotImages \<times> trace" where
  "init has_arm client rgb tr =
     (let cam = map (\<lambda>s. build_image_request s default_quality_percent (Some FORMAT_RAW) None)
                  CAMERA_IMAGE_SOURCES;
          dep = map (\<lambda>s. build_image_request s default_quality_percent (Some FORMAT_RAW) None)
                  DEPTH_IMAGE_SOURCES;
          reg = map (\<lambda>s. build_image_request s default_quality_percent (Some FORMAT_RAW) None)
                  DEPTH_REGISTERED_IMAGE_SOURCES;
          cam' = (if has_arm then
                    cam @ [build_image_request ''hand_color_image'' 50
                             (Some FORMAT_JPEG) (Some PIXEL_FORMAT_RGB_U8)]
                  else cam);
          dep' = (if has_arm then
                    dep @ [build_image_request ''hand_depth'' default_quality_percent
                             None (Some PIXEL_FORMAT_DEPTH_U16)]
                  else dep);
          reg' = (if has_arm then
                    reg @ [build_image_request ''hand_depth_in_hand_color_frame''
                             default_quality_percent None (Some PIXEL_FORMAT_DEPTH_U16)]
                  else reg);
          st = foldl (table_camera has_arm rgb)
                 \<lparr>loop_trace = tr, loop_table = [],
                  var_image_format = None, var_pixel_format = None\<rparr>
                 IMAGE_SOURCES_BY_CAMERA
      in (\<lparr>robot_has_arm = has_arm, rgb_cameras = rgb, image_client = client,
           camera_image_requests = cam', depth_image_requests = dep',
           depth_registered_image_requests = reg',
           image_requests_by_camera = loop_table st\<rparr>,
          loop_trace st))"

subsection \<open>Single-image accessors\<close>

text \<open>
  The five body accessors share one body, up to the source name: one request built on
  the spot, one call, the first response. The index \<open>[0]\<close> is inside the \<open>try\<close>, but only
  the unsupported-pixel-format error is caught.
\<close>

definition body_rgb_image :: "string \<Rightarrow> 'r SpotImages \<Rightarrow> trace \<Rightarrow> (exn + 'r option) \<times> trace" where
  "body_rgb_image src self tr =
     (case get_image (image_client self)
             [build_image_request src default_quality_percent (Some FORMAT_RAW) None] tr of
        (Inr rs, tr1) \<Rightarrow>
          (case item rs 0 of Inr r \<Rightarrow> (Inr (Some r), tr1) | Inl e \<Rightarrow> (Inl e, tr1))
      | (Inl e, tr1) \<Rightarrow>
          (case e of
             UnsupportedPixelFormatRequestedError m \<Rightarrow> (Inr None, logger_error m tr1)
           | _ \<Rightarrow> (Inl e, tr1)))"

definition get_frontleft_rgb_image :: "'r SpotImages \<Rightarrow> trace \<Rightarrow> (exn + 'r option) \<times> trace" where
  "get_frontleft_rgb_image = body_rgb_image ''frontleft_fisheye_image''"

definition get_frontright_rgb_image :: "'r SpotImages \<Rightarrow> trace \<Rightarrow> (exn + 'r option) \<times> trace" where
  "get_frontright_rgb_image = body_rgb_image ''frontright_fisheye_image''"

definition get_left_rgb_image :: "'r SpotImages \<Rightarrow> trace \<Rightarrow> (exn + 'r option) \<times> trace" where
  "get_left_rgb_image = body_rgb_image ''left_fisheye_image''"

definition get_right_rgb_image :: "'r SpotImages \<Rightarrow> trace \<Rightarrow> (exn + 'r option) \<times> trace" where
  "get_right_rgb_image = body_rgb_image ''right_fisheye_image''"

definition get_back_rgb_image :: "'r SpotImages \<Rightarrow> trace \<Rightarrow> (exn + 'r option) \<times> trace" where
  "get_back_rgb_image = body_rgb_image ''back_fisheye_image''"

definition hand_rgb_request :: image_request where
  "hand_rgb_request = build_image_request ''hand_color_image'' 50 None (Some PIXEL_FORMAT_RGB_U8)"

text \<open>The \<open>except\<close> clause of the hand accessor returns without logging (line 267).\<close>

definition get_hand_rgb_image :: "'r SpotImages \<Rightarrow> trace \<Rightarrow> (exn + 'r option) \<times> trace" where
  "get_hand_rgb_image self tr =
     (if \<not> robot_has_arm self then (Inr None, tr)
      else
        (case get_image (image_client self) [hand_rgb_request] tr of
           (Inr rs, tr1) \<Rightarrow>
             (case item rs 0 of Inr r \<Rightarrow> (Inr (Some r), tr1) | Inl e \<Rightarrow> (Inl e, tr1))
         | (Inl e, tr1) \<Rightarrow>
             (case e of
                UnsupportedPixelFormatRequestedError m \<Rightarrow> (Inr None, tr1)
              | _ \<Rightarrow> (Inl e, tr1))))"

subsection \<open>Bundled fetches\<close>

definition bind_exn :: "exn + 'a \<Rightarrow> ('a \<Rightarrow> exn + 'b) \<Rightarrow> exn + 'b" where
  "bind_exn x f = (case x of Inl e \<Rightarrow> Inl e | Inr a \<Rightarrow> f a)"

definition get_images ::
  "'r SpotImages \<Rightarrow> image_request list \<Rightarrow> trace \<Rightarrow> (exn + 'r image_bundle option) \<times> trace" where
  "get_images self image_requests tr =
     (case get_image (image_client self) image_requests tr of
        (Inl e, tr1) \<Rightarrow>
          (case e of
             UnsupportedPixelFormatRequestedError m \<Rightarrow> (Inr None, logger_error m tr1)
           | _ \<Rightarrow> (Inl e, tr1))
      | (Inr rs, tr1) \<Rightarrow>
          (if robot_has_arm self then
             (bind_exn (item rs 0) (\<lambda>fl.
              bind_exn (item rs 1) (\<lambda>fr.
              bind_exn (item rs 2) (\<lambda>l.
              bind_exn (item rs 3) (\<lambda>r.
              bind_exn (item rs 4) (\<lambda>b.
              bind_exn (item rs 5) (\<lambda>h.
                Inr (Some (ImageWithHandBundle fl fr l r b h)))))))), tr1)
           else
             (bind_exn (item rs 0) (\<lambda>fl.
              bind_exn (item rs 1) (\<lambda>fr.
              bind_exn (item rs 2) (\<lambda>l.
              bind_exn (item rs 3) (\<lambda>r.
              bind_exn (item rs 4) (\<lambda>b.
                Inr (Some (ImageBundle fl fr l r b))))))), tr1)))"

definition get_camera_images ::
  "'r SpotImages \<Rightarrow> trace \<Rightarrow> (exn + 'r image_bundle option) \<times> trace" where
  "get_camera_images self tr = get_images self (camera_image_requests self) tr"

definition get_depth_images ::
  "'r SpotImages \<Rightarrow> trace \<Rightarrow> (exn + 'r image_bundle option) \<times> trace" where
  "get_depth_images self tr = get_images self (depth_image_requests self) tr"

definition get_depth_registered_images ::
  "'r SpotImages \<Rightarrow> trace \<Rightarrow> (exn + 'r image_bundle option) \<times> trace" where
  "get_depth_registered_images self tr =
     get_images self (depth_registered_image_requests self) tr"

subsection \<open>Selective fetch\<close>

text \<open>
  \<open>self._image_requests_by_camera[camera][image_type]\<close>; \<open>None\<close> is the \<open>KeyError\<close> of
  either subscript.
\<close>

definition lookup_request :: "request_table \<Rightarrow> string \<Rightarrow> string \<Rightarrow> image_request option" where
  "lookup_request t camera image_type =
     (case map_of t camera of None \<Rightarrow> None | Some row \<Rightarrow> map_of row image_type)"

definition squote :: string where
  "squote = [CHR 0x27]"

definition duplicated_message :: "string \<Rightarrow> string" where
  "duplicated_message camera = ''Duplicated camera source for camera '' @ camera"

definition unexpected_message :: "string \<Rightarrow> string \<Rightarrow> string" where
  "unexpected_message camera image_type =
     ''Unexpected camera name '' @ squote @ camera @ squote @
     '' or image type '' @ squote @ image_type @ squote"

definition unsupported_message :: string where
  "unsupported_message =
     ''UnsupportedPixelFormatRequestedError. '' @
     ''Likely pixel_format is set wrong for some image request''"

text \<open>
  The inner loop, lines 343 to 353, for one camera: \<open>Inl image_type\<close> is the image type at
  which the lookup raised \<open>KeyError\<close>.
\<close>

fun resolve_image_types ::
  "request_table \<Rightarrow> string \<Rightarrow> string list \<Rightarrow>
   image_request list \<times> (string \<times> string) list \<Rightarrow>
   string + image_request list \<times> (string \<times> string) list" where
  "resolve_image_types t camera [] acc = Inr acc"
| "resolve_image_types t camera (image_type # rest) (image_requests, source_types) =
     (case lookup_request t camera image_type of
        None \<Rightarrow> Inl image_type
      | Some request \<Rightarrow>
          resolve_image_types t camera rest
            (image_requests @ [request], source_types @ [(camera, image_type)]))"

text \<open>
  The outer loop, lines 334 to 354. \<open>IMAGE_TYPES\<close> is a Python set of strings, whose
  iteration order the language does not fix: \<open>types_order\<close> is the order in which this run
  iterates it. The result is \<open>None\<close> when the method returned \<open>None\<close> from inside the loop.
\<close>

fun build_requests ::
  "string list \<Rightarrow> request_table \<Rightarrow> CameraSource list \<Rightarrow>
   image_request list \<times> (string \<times> string) list \<Rightarrow> string set \<Rightarrow> trace \<Rightarrow>
   (image_request list \<times> (string \<times> string) list) option \<times> trace" where
  "build_requests types_order t [] acc cameras_specified tr = (Some acc, tr)"
| "build_requests types_order t (src # rest) acc cameras_specified tr =
     (if camera_name src \<in> cameras_specified then
        (None, logger_error (duplicated_message (camera_name src)) tr)
      else
        (case resolve_image_types t (camera_name src)
                (case image_types src of None \<Rightarrow> types_order | Some tys \<Rightarrow> tys) acc of
           Inl image_type \<Rightarrow>
             (None, logger_error (unexpected_message (camera_name src) image_type) tr)
         | Inr acc' \<Rightarrow>
             build_requests types_order t rest acc'
               (insert (camera_name src) cameras_specified) tr))"

text \<open>The final loop, lines 367 to 376: \<open>enumerate\<close> counts from \<open>i\<close>.\<close>

fun make_entries ::
  "'r list \<Rightarrow> nat \<Rightarrow> (string \<times> string) list \<Rightarrow> 'r ImageEntry list \<Rightarrow> exn + 'r ImageEntry list" where
  "make_entries rs i [] result = Inr result"
| "make_entries rs i ((camera, image_type) # rest) result =
     (case item rs i of
        Inl e \<Rightarrow> Inl e
      | Inr r \<Rightarrow> make_entries rs (Suc i) rest (result @ [ImageEntry camera image_type r]))"

definition get_images_by_cameras ::
  "string list \<Rightarrow> 'r SpotImages \<Rightarrow> CameraSource list \<Rightarrow> trace \<Rightarrow>
   (exn + 'r ImageEntry list option) \<times> trace" where
  "get_images_by_cameras types_order self camera_sources tr =
     (case build_requests types_order (image_requests_by_camera self) camera_sources
             ([], []) {} tr of
        (None, tr1) \<Rightarrow> (Inr None, tr1)
      | (Some (image_requests, source_types), tr1) \<Rightarrow>
          (case get_image (image_client self) image_requests tr1 of
             (Inl e, tr2) \<Rightarrow>
               (case e of
                  UnsupportedPixelFormatRequestedError m \<Rightarrow>
                    (Inr None, logger_error unsupported_message tr2)
                | _ \<Rightarrow> (Inl e, tr2))
           | (Inr rs, tr2) \<Rightarrow>
               (case make_entries rs 0 source_types [] of
                  Inl e \<Rightarrow> (Inl e, tr2)
                | Inr result \<Rightarrow> (Inr (Some result), tr2))))"

subsection \<open>Closed forms of the constructor's loops\<close>

text \<open>
  What the table-building loop computes, written without the loop: the request stored for
  one (image type, source) entry of a camera, the greyscale messages logged for a camera,
  the row of a camera, and the cameras that are not skipped by the \<open>continue\<close>.
\<close>

definition table_request :: "bool \<Rightarrow> string \<Rightarrow> string \<times> string \<Rightarrow> image_request" where
  "table_request rgb camera entry =
     build_image_request (snd entry) 75
       (Some (if startswith (fst entry) ''depth'' then FORMAT_RAW else FORMAT_JPEG))
       (Some (if startswith (fst entry) ''depth'' then PIXEL_FORMAT_DEPTH_U16
              else if camera = ''hand'' \<or> rgb then PIXEL_FORMAT_RGB_U8
              else PIXEL_FORMAT_GREYSCALE_U8))"

definition greyscale_logs :: "bool \<Rightarrow> string \<Rightarrow> (string \<times> string) list \<Rightarrow> log_entry list" where
  "greyscale_logs rgb camera entries =
     map (\<lambda>e. Info (greyscale_message camera (fst e)))
       (filter (\<lambda>e. \<not> startswith (fst e) ''depth'' \<and> \<not> (camera = ''hand'' \<or> rgb)) entries)"

definition table_row :: "bool \<Rightarrow> string \<times> (string \<times> string) list \<Rightarrow> string \<times> (string \<times> image_request) list" where
  "table_row rgb src = (fst src, map (\<lambda>e. (fst e, table_request rgb (fst src) e)) (snd src))"

definition arm_filter :: "bool \<Rightarrow> (string \<times> 'a) list \<Rightarrow> (string \<times> 'a) list" where
  "arm_filter has_arm srcs = filter (\<lambda>src. \<not> (fst src = ''hand'' \<and> \<not> has_arm)) srcs"

text \<open>
  The five body cameras, and the test that a log entry is the greyscale message of a
  camera (the camera is the part of the message between \<open>Switching\<close> and the colon).
\<close>

definition body_cameras :: "string list" where
  "body_cameras = [''frontleft'', ''frontright'', ''left'', ''right'', ''back'']"

definition names_camera :: "string \<Rightarrow> log_entry \<Rightarrow> bool" where
  "names_camera camera e =
     (case e of Info msg \<Rightarrow> startswith msg (''Switching '' @ camera @ '':'') | Error msg \<Rightarrow> False)"

text \<open>
  What a selector list asks for: the image types of one selector as the loop iterates
  them, the (camera, image type) pairs of a selector list in request order, the set of
  image types a selector requests, and the table lookup of a pair.
\<close>

definition types_of :: "string list \<Rightarrow> CameraSource \<Rightarrow> string list" where
  "types_of types_order src = (case image_types src of None \<Rightarrow> types_order | Some tys \<Rightarrow> tys)"

definition selected_pairs :: "string list \<Rightarrow> CameraSource list \<Rightarrow> (string \<times> string) list" where
  "selected_pairs types_order srcs =
     concat (map (\<lambda>src. map (Pair (camera_name src)) (types_of types_order src)) srcs)"

definition requested_types :: "CameraSource \<Rightarrow> string set" where
  "requested_types src = (case image_types src of None \<Rightarrow> IMAGE_TYPES | Some tys \<Rightarrow> set tys)"

definition lookup_pair :: "request_table \<Rightarrow> string \<times> string \<Rightarrow> image_request option" where
  "lookup_pair t p = lookup_request t (fst p) (snd p)"

text \<open>One possible iteration order of \<open>IMAGE_TYPES\<close>.\<close>

definition types_order0 :: "string list" where
  "types_order0 = [''visual'', ''depth'', ''depth_registered'']"

text \<open>Two clients used as concrete inputs, and the trace before anything happened.\<close>

definition echo_client :: "string client" where
  "echo_client reqs = Inr (map image_source_name reqs)"

definition unsupported_client :: "string client" where
  "unsupported_client reqs = Inl (UnsupportedPixelFormatRequestedError ''unsupported'')"

definition empty_trace :: trace where
  "empty_trace = \<lparr>logged = [], rpc_calls = []\<rparr>"

section \<open>The constructor\<close>

lemma dict_set_fresh: "k \<notin> fst ` set ps \<Longrightarrow> dict_set k v ps = ps @ [(k, v)]"
  by (induction ps) auto

lemma dict_set_last: "k \<notin> fst ` set ps \<Longrightarrow> dict_set k v (ps @ [(k, w)]) = ps @ [(k, v)]"
  by (induction ps) auto

lemma map_of_last: "k \<notin> fst ` set ps \<Longrightarrow> map_of (ps @ [(k, w)]) k = Some w"
  by (induction ps) auto

lemma table_image_type_step:
  assumes "loop_table st = t @ [(cam, row)]" "cam \<notin> fst ` set t" "fst e \<notin> fst ` set row"
  shows "loop_table (table_image_type rgb cam st e) =
           t @ [(cam, row @ [(fst e, table_request rgb cam e)])]
         \<and> loop_trace (table_image_type rgb cam st e) =
           (loop_trace st)\<lparr>logged := logged (loop_trace st) @ greyscale_logs rgb cam [e]\<rparr>"
proof -
  have m: "map_of (loop_table st) cam = Some row"
    using assms(1,2) by (simp add: map_of_last del: map_of_append)
  have u: "\<And>v. dict_set cam v (loop_table st) = t @ [(cam, v)]"
    using assms(1,2) by (simp add: dict_set_last)
  have r: "\<And>v. dict_set (fst e) v row = row @ [(fst e, v)]"
    using assms(3) by (simp add: dict_set_fresh)
  show ?thesis
    by (simp add: table_image_type_def Let_def table_request_def greyscale_logs_def
          m u r logger_info_def)
qed

lemma table_image_type_fold:
  "loop_table st = t @ [(cam, row)] \<Longrightarrow> cam \<notin> fst ` set t \<Longrightarrow>
   distinct (map fst row @ map fst es) \<Longrightarrow>
   loop_table (foldl (table_image_type rgb cam) st es) =
     t @ [(cam, row @ map (\<lambda>e. (fst e, table_request rgb cam e)) es)]
   \<and> loop_trace (foldl (table_image_type rgb cam) st es) =
     (loop_trace st)\<lparr>logged := logged (loop_trace st) @ greyscale_logs rgb cam es\<rparr>"
proof (induction es arbitrary: st row)
  case Nil
  then show ?case by (simp add: greyscale_logs_def)
next
  case (Cons e es)
  have fresh: "fst e \<notin> fst ` set row" using Cons.prems(3) by auto
  note step = table_image_type_step [OF Cons.prems(1) Cons.prems(2) fresh, of rgb]
  have d: "distinct (map fst (row @ [(fst e, table_request rgb cam e)]) @ map fst es)"
    using Cons.prems(3) by auto
  from Cons.IH [OF conjunct1 [OF step] Cons.prems(2) d] step
  show ?case by (simp add: greyscale_logs_def)
qed

lemma table_camera_skip:
  "fst src = ''hand'' \<and> \<not> has_arm \<Longrightarrow> table_camera has_arm rgb st src = st"
  by (simp add: table_camera_def)

lemma table_camera_add:
  assumes "\<not> (fst src = ''hand'' \<and> \<not> has_arm)"
    and "fst src \<notin> fst ` set (loop_table st)" and "distinct (map fst (snd src))"
  shows "loop_table (table_camera has_arm rgb st src) = loop_table st @ [table_row rgb src]
         \<and> loop_trace (table_camera has_arm rgb st src) =
           (loop_trace st)\<lparr>logged := logged (loop_trace st) @
              greyscale_logs rgb (fst src) (snd src)\<rparr>"
proof -
  let ?st = "st\<lparr>loop_table := dict_set (fst src) [] (loop_table st)\<rparr>"
  have t: "loop_table ?st = loop_table st @ [(fst src, [])]"
    using assms(2) by (simp add: dict_set_fresh)
  have d: "distinct (map fst [] @ map fst (snd src))" using assms(3) by simp
  have c: "table_camera has_arm rgb st src = foldl (table_image_type rgb (fst src)) ?st (snd src)"
    using assms(1) by (auto simp: table_camera_def Let_def)
  from table_image_type_fold [OF t assms(2) d, of rgb]
  show ?thesis unfolding c by (simp add: table_row_def)
qed

lemma table_camera_fold:
  "distinct (map fst (loop_table st) @ map fst srcs) \<Longrightarrow>
   (\<forall>src \<in> set srcs. distinct (map fst (snd src))) \<Longrightarrow>
   loop_table (foldl (table_camera has_arm rgb) st srcs) =
     loop_table st @ map (table_row rgb) (arm_filter has_arm srcs)
   \<and> loop_trace (foldl (table_camera has_arm rgb) st srcs) =
     (loop_trace st)\<lparr>logged := logged (loop_trace st) @
        concat (map (\<lambda>s. greyscale_logs rgb (fst s) (snd s)) (arm_filter has_arm srcs))\<rparr>"
proof (induction srcs arbitrary: st)
  case Nil
  then show ?case by (simp add: arm_filter_def)
next
  case (Cons src srcs)
  have r: "\<forall>src \<in> set srcs. distinct (map fst (snd src))" using Cons.prems(2) by simp
  show ?case
  proof (cases "fst src = ''hand'' \<and> \<not> has_arm")
    case True
    have d: "distinct (map fst (loop_table st) @ map fst srcs)" using Cons.prems(1) by simp
    have f: "arm_filter has_arm (src # srcs) = arm_filter has_arm srcs"
      using True by (simp add: arm_filter_def)
    show ?thesis
      using Cons.IH [OF d r] by (simp only: foldl_Cons table_camera_skip [OF True] f)
  next
    case False
    have fresh: "fst src \<notin> fst ` set (loop_table st)" using Cons.prems(1) by auto
    have d1: "distinct (map fst (snd src))" using Cons.prems(2) by simp
    note step = table_camera_add [OF False fresh d1, of rgb]
    let ?st = "table_camera has_arm rgb st src"
    have k: "map fst (loop_table ?st) = map fst (loop_table st) @ [fst src]"
      by (simp only: conjunct1 [OF step]) (simp add: table_row_def)
    have d: "distinct (map fst (loop_table ?st) @ map fst srcs)"
      unfolding k using Cons.prems(1) by auto
    have f: "arm_filter has_arm (src # srcs) = src # arm_filter has_arm srcs"
      using False by (simp add: arm_filter_def)
    have a: "loop_table (foldl (table_camera has_arm rgb) ?st srcs) =
             loop_table st @ map (table_row rgb) (arm_filter has_arm (src # srcs))"
      by (simp add: conjunct1 [OF Cons.IH [OF d r]] conjunct1 [OF step] f)
    have b: "loop_trace (foldl (table_camera has_arm rgb) ?st srcs) =
             (loop_trace st)\<lparr>logged := logged (loop_trace st) @
                concat (map (\<lambda>s. greyscale_logs rgb (fst s) (snd s))
                  (arm_filter has_arm (src # srcs)))\<rparr>"
      by (simp add: conjunct2 [OF Cons.IH [OF d r]] conjunct2 [OF step] f)
    show ?thesis using a b by (simp only: foldl_Cons)
  qed
qed

lemma sources_distinct:
  "distinct (map fst IMAGE_SOURCES_BY_CAMERA)"
  "\<forall>src \<in> set IMAGE_SOURCES_BY_CAMERA. distinct (map fst (snd src))"
  by (simp_all add: IMAGE_SOURCES_BY_CAMERA_def)

lemma init_table:
  "image_requests_by_camera (fst (init has_arm client rgb tr)) =
     map (table_row rgb) (arm_filter has_arm IMAGE_SOURCES_BY_CAMERA)"
proof -
  let ?st0 = "\<lparr>loop_trace = tr, loop_table = [], var_image_format = None, var_pixel_format = None\<rparr>"
  have d: "distinct (map fst (loop_table ?st0) @ map fst IMAGE_SOURCES_BY_CAMERA)"
    using sources_distinct(1) by simp
  from table_camera_fold [OF d sources_distinct(2), of has_arm rgb]
  show ?thesis by (simp add: init_def Let_def)
qed

lemma init_trace:
  "snd (init has_arm client rgb tr) =
     tr\<lparr>logged := logged tr @
        concat (map (\<lambda>s. greyscale_logs rgb (fst s) (snd s))
          (arm_filter has_arm IMAGE_SOURCES_BY_CAMERA))\<rparr>"
proof -
  let ?st0 = "\<lparr>loop_trace = tr, loop_table = [], var_image_format = None, var_pixel_format = None\<rparr>"
  have d: "distinct (map fst (loop_table ?st0) @ map fst IMAGE_SOURCES_BY_CAMERA)"
    using sources_distinct(1) by simp
  from table_camera_fold [OF d sources_distinct(2), of has_arm rgb]
  show ?thesis by (simp add: init_def Let_def)
qed

lemma startswith_simps:
  "startswith ''visual'' ''depth'' = False"
  "startswith ''depth'' ''depth'' = True"
  "startswith ''depth_registered'' ''depth'' = True"
  by (simp_all add: startswith_def)

lemma map_of_table_rows:
  "map_of (map (table_row rgb) srcs) cam =
     map_option (map (\<lambda>e. (fst e, table_request rgb cam e))) (map_of srcs cam)"
  by (induction srcs) (auto simp: table_row_def)

lemma map_of_row:
  "map_of (map (\<lambda>e. (fst e, table_request rgb cam e)) es) ty =
     map_option (\<lambda>src. table_request rgb cam (ty, src)) (map_of es ty)"
  by (induction es) auto

lemma map_of_arm_filter:
  "map_of (arm_filter has_arm srcs) cam =
     (if cam = ''hand'' \<and> \<not> has_arm then None else map_of srcs cam)"
  by (induction srcs) (auto simp: arm_filter_def)

lemma lookup_init:
  "lookup_request (image_requests_by_camera (fst (init has_arm client rgb tr))) cam ty =
     (if cam = ''hand'' \<and> \<not> has_arm then None
      else case map_of IMAGE_SOURCES_BY_CAMERA cam of
             None \<Rightarrow> None
           | Some es \<Rightarrow> map_option (\<lambda>src. table_request rgb cam (ty, src)) (map_of es ty))"
  by (simp add: lookup_request_def init_table map_of_table_rows map_of_arm_filter map_of_row
        split: option.splits)

lemma init_logged:
  "logged (snd (init has_arm client rgb tr)) =
     logged tr @ (if rgb then []
                  else map (\<lambda>cam. Info (greyscale_message cam ''visual'')) body_cameras)"
  by (cases has_arm; cases rgb;
      simp add: init_trace IMAGE_SOURCES_BY_CAMERA_def arm_filter_def greyscale_logs_def
        startswith_simps body_cameras_def)

lemma init_rpc_calls: "rpc_calls (snd (init has_arm client rgb tr)) = rpc_calls tr"
  by (simp add: init_trace)

lemma init_lists:
  "camera_image_requests (fst (init has_arm client rgb tr)) =
     map (\<lambda>s. build_image_request s 75 (Some FORMAT_RAW) None) CAMERA_IMAGE_SOURCES @
     (if has_arm then [build_image_request ''hand_color_image'' 50
                         (Some FORMAT_JPEG) (Some PIXEL_FORMAT_RGB_U8)] else [])"
  "depth_image_requests (fst (init has_arm client rgb tr)) =
     map (\<lambda>s. build_image_request s 75 (Some FORMAT_RAW) None) DEPTH_IMAGE_SOURCES @
     (if has_arm then [build_image_request ''hand_depth'' 75
                         None (Some PIXEL_FORMAT_DEPTH_U16)] else [])"
  "depth_registered_image_requests (fst (init has_arm client rgb tr)) =
     map (\<lambda>s. build_image_request s 75 (Some FORMAT_RAW) None) DEPTH_REGISTERED_IMAGE_SOURCES @
     (if has_arm then [build_image_request ''hand_depth_in_hand_color_frame'' 75
                         None (Some PIXEL_FORMAT_DEPTH_U16)] else [])"
  by (simp_all add: init_def Let_def default_quality_percent_def)

lemma init_fields:
  "robot_has_arm (fst (init has_arm client rgb tr)) = has_arm"
  "rgb_cameras (fst (init has_arm client rgb tr)) = rgb"
  "image_client (fst (init has_arm client rgb tr)) = client"
  by (simp_all add: init_def Let_def)

lemma item_simps:
  "i < length xs \<Longrightarrow> item xs i = Inr (xs ! i)"
  "length xs \<le> i \<Longrightarrow> item xs i = Inl IndexError"
  by (simp_all add: item_def)

section \<open>Claims about the catalog\<close>

text \<open>
  C1. The claim: in each of the three bundled request lists the descriptor at position i
  targets the camera of the i-th slot of the bundle (frontleft, frontright, left, right,
  back, then hand), so the depth-registered list is ordered frontleft, frontright, left,
  right, back. The code orders the depth-registered list frontleft, frontright, right,
  left, back: positions 2 and 3 are swapped. With a client that answers every request
  with the name of its source, the \<open>left\<close> slot of the depth-registered bundle holds the
  image of the right camera and the \<open>right\<close> slot the image of the left camera.
\<close>

theorem depth_registered_left_slot_gets_right_camera:
  "map image_source_name
     (depth_registered_image_requests (fst (init has_arm client rgb tr))) =
     [''frontleft_depth_in_visual_frame'', ''frontright_depth_in_visual_frame'',
      ''right_depth_in_visual_frame'', ''left_depth_in_visual_frame'',
      ''back_depth_in_visual_frame''] @
     (if has_arm then [''hand_depth_in_hand_color_frame''] else [])
   \<and> fst (get_depth_registered_images (fst (init False echo_client True empty_trace))
            empty_trace) =
     Inr (Some (ImageBundle ''frontleft_depth_in_visual_frame''
                  ''frontright_depth_in_visual_frame'' ''right_depth_in_visual_frame''
                  ''left_depth_in_visual_frame'' ''back_depth_in_visual_frame''))"
  by (simp add: init_lists init_fields DEPTH_REGISTERED_IMAGE_SOURCES_def
        build_image_request_def get_depth_registered_images_def get_images_def get_image_def
        echo_client_def item_def bind_exn_def)

text \<open>
  C6. After construction each of the three catalog lists has length 6 when the robot has
  an arm and length 5 otherwise; the table has a row for the hand camera exactly when the
  robot has an arm, and the three hand descriptors are in the lists exactly then. A lookup
  of the hand camera in the table finds a request exactly when the robot has an arm and
  the image type is one of \<open>IMAGE_TYPES\<close>, and with an arm the three requests found are
  those of the hand camera's three sources.
\<close>

theorem catalog_sizes_follow_arm_flag:
  "length (camera_image_requests (fst (init has_arm client rgb tr))) = (if has_arm then 6 else 5)
   \<and> length (depth_image_requests (fst (init has_arm client rgb tr))) = (if has_arm then 6 else 5)
   \<and> length (depth_registered_image_requests (fst (init has_arm client rgb tr))) =
       (if has_arm then 6 else 5)
   \<and> (map_of (image_requests_by_camera (fst (init has_arm client rgb tr))) ''hand'' \<noteq> None)
       = has_arm
   \<and> (''hand_color_image'' \<in> image_source_name `
         set (camera_image_requests (fst (init has_arm client rgb tr)))) = has_arm
   \<and> (''hand_depth'' \<in> image_source_name `
         set (depth_image_requests (fst (init has_arm client rgb tr)))) = has_arm
   \<and> (''hand_depth_in_hand_color_frame'' \<in> image_source_name `
         set (depth_registered_image_requests (fst (init has_arm client rgb tr)))) = has_arm
   \<and> (lookup_request (image_requests_by_camera (fst (init has_arm client rgb tr))) ''hand'' ty
         \<noteq> None) = (has_arm \<and> ty \<in> IMAGE_TYPES)
   \<and> map_option image_source_name
         (lookup_request (image_requests_by_camera (fst (init has_arm client rgb tr)))
            ''hand'' ''visual'') =
       (if has_arm then Some ''hand_color_image'' else None)
   \<and> map_option image_source_name
         (lookup_request (image_requests_by_camera (fst (init has_arm client rgb tr)))
            ''hand'' ''depth'') =
       (if has_arm then Some ''hand_depth'' else None)
   \<and> map_option image_source_name
         (lookup_request (image_requests_by_camera (fst (init has_arm client rgb tr)))
            ''hand'' ''depth_registered'') =
       (if has_arm then Some ''hand_depth_in_hand_color_frame'' else None)"
proof -
  have lists:
    "length (camera_image_requests (fst (init has_arm client rgb tr))) = (if has_arm then 6 else 5)
     \<and> length (depth_image_requests (fst (init has_arm client rgb tr))) =
         (if has_arm then 6 else 5)
     \<and> length (depth_registered_image_requests (fst (init has_arm client rgb tr))) =
         (if has_arm then 6 else 5)
     \<and> (map_of (image_requests_by_camera (fst (init has_arm client rgb tr))) ''hand'' \<noteq> None)
         = has_arm
     \<and> (''hand_color_image'' \<in> image_source_name `
           set (camera_image_requests (fst (init has_arm client rgb tr)))) = has_arm
     \<and> (''hand_depth'' \<in> image_source_name `
           set (depth_image_requests (fst (init has_arm client rgb tr)))) = has_arm
     \<and> (''hand_depth_in_hand_color_frame'' \<in> image_source_name `
           set (depth_registered_image_requests (fst (init has_arm client rgb tr)))) = has_arm"
    by (simp add: init_lists init_table map_of_table_rows map_of_arm_filter
          CAMERA_IMAGE_SOURCES_def DEPTH_IMAGE_SOURCES_def DEPTH_REGISTERED_IMAGE_SOURCES_def
          IMAGE_SOURCES_BY_CAMERA_def build_image_request_def)
  have rows:
    "(lookup_request (image_requests_by_camera (fst (init has_arm client rgb tr))) ''hand'' ty
         \<noteq> None) = (has_arm \<and> ty \<in> IMAGE_TYPES)"
    by (auto simp: lookup_init IMAGE_SOURCES_BY_CAMERA_def IMAGE_TYPES_def split: if_splits)
  have srcs:
    "map_option image_source_name
         (lookup_request (image_requests_by_camera (fst (init has_arm client rgb tr)))
            ''hand'' ''visual'') =
       (if has_arm then Some ''hand_color_image'' else None)"
    "map_option image_source_name
         (lookup_request (image_requests_by_camera (fst (init has_arm client rgb tr)))
            ''hand'' ''depth'') =
       (if has_arm then Some ''hand_depth'' else None)"
    "map_option image_source_name
         (lookup_request (image_requests_by_camera (fst (init has_arm client rgb tr)))
            ''hand'' ''depth_registered'') =
       (if has_arm then Some ''hand_depth_in_hand_color_frame'' else None)"
    by (simp_all add: lookup_init IMAGE_SOURCES_BY_CAMERA_def table_request_def
          build_image_request_def)
  show ?thesis using lists rows srcs by blast
qed

lemma lookup_init_Some:
  assumes "lookup_request (image_requests_by_camera (fst (init has_arm client rgb tr))) cam ty
           = Some req"
  shows "\<exists>src. req = table_request rgb cam (ty, src)"
  using assms by (auto simp: lookup_init split: if_splits option.splits)

lemma names_camera_count:
  "cam \<in> set body_cameras \<Longrightarrow>
   length (filter (names_camera cam)
     (map (\<lambda>c. Info (greyscale_message c ''visual'')) body_cameras)) = 1"
  by (auto simp: body_cameras_def names_camera_def greyscale_message_def startswith_def)

text \<open>
  C5. In the table built by the constructor, a visual request has pixel format RGB when
  the camera is the hand camera or \<open>rgb_cameras\<close> is set, and greyscale otherwise; a depth
  or depth-registered request has the 16-bit depth pixel format whatever \<open>rgb_cameras\<close>
  is. The constructor logs nothing when \<open>rgb_cameras\<close> is set, and otherwise one
  informational message per body camera, in table order, so that exactly one logged entry
  names each body camera.
\<close>

theorem table_pixel_formats_and_greyscale_log:
  "(lookup_request (image_requests_by_camera (fst (init has_arm client rgb tr))) cam ''visual''
      = Some req \<longrightarrow>
    req_pixel_format req =
      Some (if cam = ''hand'' \<or> rgb then PIXEL_FORMAT_RGB_U8 else PIXEL_FORMAT_GREYSCALE_U8))
   \<and> (ty \<in> {''depth'', ''depth_registered''} \<longrightarrow>
      lookup_request (image_requests_by_camera (fst (init has_arm client rgb tr))) cam ty
        = Some req' \<longrightarrow>
      req_pixel_format req' = Some PIXEL_FORMAT_DEPTH_U16)
   \<and> logged (snd (init has_arm client rgb tr)) =
       logged tr @ (if rgb then []
                    else map (\<lambda>c. Info (greyscale_message c ''visual'')) body_cameras)
   \<and> (body \<in> set body_cameras \<longrightarrow>
      length (filter (names_camera body) (logged (snd (init has_arm client rgb empty_trace))))
        = (if rgb then 0 else 1))"
proof (intro conjI impI)
  assume "lookup_request (image_requests_by_camera (fst (init has_arm client rgb tr))) cam
            ''visual'' = Some req"
  from lookup_init_Some [OF this]
  show "req_pixel_format req =
          Some (if cam = ''hand'' \<or> rgb then PIXEL_FORMAT_RGB_U8 else PIXEL_FORMAT_GREYSCALE_U8)"
    by (auto simp: table_request_def build_image_request_def startswith_simps)
next
  assume "ty \<in> {''depth'', ''depth_registered''}"
    and "lookup_request (image_requests_by_camera (fst (init has_arm client rgb tr))) cam ty
           = Some req'"
  from lookup_init_Some [OF this(2)] this(1)
  show "req_pixel_format req' = Some PIXEL_FORMAT_DEPTH_U16"
    by (auto simp: table_request_def build_image_request_def startswith_simps)
next
  show "logged (snd (init has_arm client rgb tr)) =
       logged tr @ (if rgb then []
                    else map (\<lambda>c. Info (greyscale_message c ''visual'')) body_cameras)"
    by (rule init_logged)
next
  assume "body \<in> set body_cameras"
  from names_camera_count [OF this]
  show "length (filter (names_camera body)
          (logged (snd (init has_arm client rgb empty_trace)))) = (if rgb then 0 else 1)"
    by (simp add: init_logged empty_trace_def)
qed

theorem table_pixel_formats_and_greyscale_log_witness:
  "lookup_request (image_requests_by_camera (fst (init False echo_client False empty_trace)))
     ''left'' ''visual'' =
     Some (build_image_request ''left_fisheye_image'' 75 (Some FORMAT_JPEG)
             (Some PIXEL_FORMAT_GREYSCALE_U8))
   \<and> ''depth'' \<in> {''depth'', ''depth_registered''}
   \<and> lookup_request (image_requests_by_camera (fst (init False echo_client False empty_trace)))
     ''left'' ''depth'' =
     Some (build_image_request ''left_depth'' 75 (Some FORMAT_RAW)
             (Some PIXEL_FORMAT_DEPTH_U16))
   \<and> ''left'' \<in> set body_cameras
   \<and> length (filter (names_camera ''left'')
        (logged (snd (init False echo_client False empty_trace)))) = 1"
proof -
  let ?T = "image_requests_by_camera (fst (init False echo_client False empty_trace))"
  let ?v = "build_image_request ''left_fisheye_image'' 75 (Some FORMAT_JPEG)
              (Some PIXEL_FORMAT_GREYSCALE_U8)"
  let ?d = "build_image_request ''left_depth'' 75 (Some FORMAT_RAW)
              (Some PIXEL_FORMAT_DEPTH_U16)"
  have v: "lookup_request ?T ''left'' ''visual'' = Some ?v"
    by (simp add: lookup_init IMAGE_SOURCES_BY_CAMERA_def table_request_def startswith_simps)
  have d: "lookup_request ?T ''left'' ''depth'' = Some ?d"
    by (simp add: lookup_init IMAGE_SOURCES_BY_CAMERA_def table_request_def startswith_simps)
  have b: "''left'' \<in> set body_cameras" by (simp add: body_cameras_def)
  have "length (filter (names_camera ''left'')
          (logged (snd (init False echo_client False empty_trace)))) = 1"
    using table_pixel_formats_and_greyscale_log
      [of False echo_client False empty_trace "''left''" ?v "''depth''" ?d "''left''",
       THEN conjunct2, THEN conjunct2, THEN conjunct2, rule_format, OF b]
    by simp
  with v d b show ?thesis by simp
qed

text \<open>
  C10. Two constructions that differ only in \<open>rgb_cameras\<close> have the same three bundled
  request lists, and each of the six single-image accessors returns the same result and
  the same trace on both.
\<close>

theorem rgb_flag_leaves_catalog_and_single_accessors:
  "camera_image_requests (fst (init has_arm client rgb tr)) =
     camera_image_requests (fst (init has_arm client rgb' tr))
   \<and> depth_image_requests (fst (init has_arm client rgb tr)) =
     depth_image_requests (fst (init has_arm client rgb' tr))
   \<and> depth_registered_image_requests (fst (init has_arm client rgb tr)) =
     depth_registered_image_requests (fst (init has_arm client rgb' tr))
   \<and> get_frontleft_rgb_image (fst (init has_arm client rgb tr)) t =
     get_frontleft_rgb_image (fst (init has_arm client rgb' tr)) t
   \<and> get_frontright_rgb_image (fst (init has_arm client rgb tr)) t =
     get_frontright_rgb_image (fst (init has_arm client rgb' tr)) t
   \<and> get_left_rgb_image (fst (init has_arm client rgb tr)) t =
     get_left_rgb_image (fst (init has_arm client rgb' tr)) t
   \<and> get_right_rgb_image (fst (init has_arm client rgb tr)) t =
     get_right_rgb_image (fst (init has_arm client rgb' tr)) t
   \<and> get_back_rgb_image (fst (init has_arm client rgb tr)) t =
     get_back_rgb_image (fst (init has_arm client rgb' tr)) t
   \<and> get_hand_rgb_image (fst (init has_arm client rgb tr)) t =
     get_hand_rgb_image (fst (init has_arm client rgb' tr)) t"
  by (simp add: init_lists init_fields get_frontleft_rgb_image_def get_frontright_rgb_image_def
        get_left_rgb_image_def get_right_rgb_image_def get_back_rgb_image_def
        body_rgb_image_def get_hand_rgb_image_def)

section \<open>Claims about the accessors\<close>

lemma body_rgb_image_unsupported:
  "image_client self [build_image_request src 75 (Some FORMAT_RAW) None] =
     Inl (UnsupportedPixelFormatRequestedError m) \<Longrightarrow>
   body_rgb_image src self tr =
     (Inr None,
      tr\<lparr>rpc_calls := rpc_calls tr @ [[build_image_request src 75 (Some FORMAT_RAW) None]],
         logged := logged tr @ [Error m]\<rparr>)"
  by (simp add: body_rgb_image_def get_image_def logger_error_def default_quality_percent_def)

lemma get_images_unsupported:
  "image_client self reqs = Inl (UnsupportedPixelFormatRequestedError m) \<Longrightarrow>
   get_images self reqs tr =
     (Inr None, tr\<lparr>rpc_calls := rpc_calls tr @ [reqs], logged := logged tr @ [Error m]\<rparr>)"
  by (simp add: get_images_def get_image_def logger_error_def)

lemma get_hand_rgb_image_unsupported:
  "robot_has_arm self \<Longrightarrow>
   image_client self [hand_rgb_request] = Inl (UnsupportedPixelFormatRequestedError m) \<Longrightarrow>
   get_hand_rgb_image self tr = (Inr None, tr\<lparr>rpc_calls := rpc_calls tr @ [[hand_rgb_request]]\<rparr>)"
  by (simp add: get_hand_rgb_image_def get_image_def)

text \<open>
  C2. The claim: every accessor that calls the client logs the unsupported-pixel-format
  error and returns \<open>None\<close>. The hand accessor returns \<open>None\<close> but logs nothing: on a
  robot with an arm and a client that raises the error, the log is still empty after
  \<open>get_hand_rgb_image\<close>, while \<open>get_frontleft_rgb_image\<close> on the same object has logged
  the error.
\<close>

theorem hand_accessor_does_not_log_unsupported_format:
  "get_hand_rgb_image (fst (init True unsupported_client True empty_trace)) empty_trace =
     (Inr None, \<lparr>logged = [], rpc_calls = [[hand_rgb_request]]\<rparr>)
   \<and> get_frontleft_rgb_image (fst (init True unsupported_client True empty_trace)) empty_trace =
     (Inr None,
      \<lparr>logged = [Error ''unsupported''],
       rpc_calls = [[build_image_request ''frontleft_fisheye_image'' 75 (Some FORMAT_RAW) None]]\<rparr>)"
  by (simp add: get_hand_rgb_image_def get_frontleft_rgb_image_def body_rgb_image_def
        get_image_def init_fields unsupported_client_def empty_trace_def logger_error_def
        default_quality_percent_def)

text \<open>
  C8. Without an arm the hand accessor returns \<open>None\<close> and leaves the trace as it was: no
  call, no log. With an arm, when the client answers the one-request batch with a list
  whose first element is \<open>r\<close>, the accessor returns \<open>r\<close> after exactly that one call.
\<close>

theorem hand_accessor_checks_arm_first:
  "(\<not> robot_has_arm self \<longrightarrow> get_hand_rgb_image self tr = (Inr None, tr))
   \<and> (robot_has_arm self \<longrightarrow> image_client self [hand_rgb_request] = Inr (r # rest) \<longrightarrow>
        get_hand_rgb_image self tr =
          (Inr (Some r), tr\<lparr>rpc_calls := rpc_calls tr @ [[hand_rgb_request]]\<rparr>))"
  by (simp add: get_hand_rgb_image_def get_image_def item_def)

theorem hand_accessor_checks_arm_first_witness:
  "\<not> robot_has_arm (fst (init False echo_client True empty_trace))
   \<and> get_hand_rgb_image (fst (init False echo_client True empty_trace)) empty_trace =
       (Inr None, empty_trace)
   \<and> robot_has_arm (fst (init True echo_client True empty_trace))
   \<and> image_client (fst (init True echo_client True empty_trace)) [hand_rgb_request] =
       Inr [''hand_color_image'']
   \<and> get_hand_rgb_image (fst (init True echo_client True empty_trace)) empty_trace =
       (Inr (Some ''hand_color_image''), \<lparr>logged = [], rpc_calls = [[hand_rgb_request]]\<rparr>)"
  using hand_accessor_checks_arm_first
      [of "fst (init False echo_client True empty_trace)" empty_trace]
    hand_accessor_checks_arm_first
      [of "fst (init True echo_client True empty_trace)" empty_trace "''hand_color_image''" "[]"]
  by (simp add: init_fields echo_client_def hand_rgb_request_def build_image_request_def
        empty_trace_def)

text \<open>
  C7. For each of the three bundled fetches, when the client answers the request list
  with six responses on a robot with an arm, or five otherwise, the result is a bundle
  whose slots frontleft, frontright, left, right, back (and hand with an arm) hold the
  responses in list order, and the bundle has six slots with an arm and five without.
\<close>

theorem bundled_fetch_slots:
  assumes "(fetch, reqs) \<in>
             {(get_camera_images, camera_image_requests self),
              (get_depth_images, depth_image_requests self),
              (get_depth_registered_images, depth_registered_image_requests self)}"
    and "image_client self reqs = Inr rs"
    and "length rs = (if robot_has_arm self then 6 else 5)"
  shows "\<exists>b. fetch self tr = (Inr (Some b), tr\<lparr>rpc_calls := rpc_calls tr @ [reqs]\<rparr>)
           \<and> bundle_fields b =
               zip ([''frontleft'', ''frontright'', ''left'', ''right'', ''back''] @
                    (if robot_has_arm self then [''hand''] else [])) rs
           \<and> length (bundle_fields b) = (if robot_has_arm self then 6 else 5)"
proof -
  have f: "fetch self tr = get_images self reqs tr"
    using assms(1)
    by (auto simp: get_camera_images_def get_depth_images_def get_depth_registered_images_def)
  show ?thesis
  proof (cases "robot_has_arm self")
    case True
    then obtain a b c d e h where rs: "rs = [a, b, c, d, e, h]"
      using assms(3) by (auto simp: length_Suc_conv eval_nat_numeral)
    show ?thesis unfolding f using True assms(2)
      by (simp add: rs get_images_def get_image_def item_def bind_exn_def)
  next
    case False
    then obtain a b c d e where rs: "rs = [a, b, c, d, e]"
      using assms(3) by (auto simp: length_Suc_conv eval_nat_numeral)
    show ?thesis unfolding f using False assms(2)
      by (simp add: rs get_images_def get_image_def item_def bind_exn_def)
  qed
qed

theorem bundled_fetch_slots_witness:
  "(get_camera_images, camera_image_requests (fst (init False echo_client True empty_trace))) \<in>
     {(get_camera_images, camera_image_requests (fst (init False echo_client True empty_trace))),
      (get_depth_images, depth_image_requests (fst (init False echo_client True empty_trace))),
      (get_depth_registered_images,
       depth_registered_image_requests (fst (init False echo_client True empty_trace)))}
   \<and> image_client (fst (init False echo_client True empty_trace))
       (camera_image_requests (fst (init False echo_client True empty_trace))) =
       Inr CAMERA_IMAGE_SOURCES
   \<and> length CAMERA_IMAGE_SOURCES =
       (if robot_has_arm (fst (init False echo_client True empty_trace)) then 6 else 5)
   \<and> (\<exists>b. fst (get_camera_images (fst (init False echo_client True empty_trace)) empty_trace) =
            Inr (Some b)
          \<and> bundle_fields b =
              [(''frontleft'', ''frontleft_fisheye_image''),
               (''frontright'', ''frontright_fisheye_image''),
               (''left'', ''left_fisheye_image''),
               (''right'', ''right_fisheye_image''),
               (''back'', ''back_fisheye_image'')])"
proof -
  let ?self = "fst (init False echo_client True empty_trace)"
  have m: "(get_camera_images, camera_image_requests ?self) \<in>
     {(get_camera_images, camera_image_requests ?self),
      (get_depth_images, depth_image_requests ?self),
      (get_depth_registered_images, depth_registered_image_requests ?self)}"
    by simp
  have c: "image_client ?self (camera_image_requests ?self) = Inr CAMERA_IMAGE_SOURCES"
    by (simp add: init_fields init_lists echo_client_def build_image_request_def comp_def)
  have l: "length CAMERA_IMAGE_SOURCES = (if robot_has_arm ?self then 6 else 5)"
    by (simp add: init_fields CAMERA_IMAGE_SOURCES_def)
  from bundled_fetch_slots [OF m c l, of empty_trace]
  obtain b where b: "get_camera_images ?self empty_trace =
        (Inr (Some b), empty_trace\<lparr>rpc_calls := rpc_calls empty_trace @
           [camera_image_requests ?self]\<rparr>)"
     "bundle_fields b =
        zip ([''frontleft'', ''frontright'', ''left'', ''right'', ''back''] @
             (if robot_has_arm ?self then [''hand''] else [])) CAMERA_IMAGE_SOURCES"
    by blast
  have "fst (get_camera_images ?self empty_trace) = Inr (Some b)" using b(1) by simp
  moreover have "bundle_fields b =
              [(''frontleft'', ''frontleft_fisheye_image''),
               (''frontright'', ''frontright_fisheye_image''),
               (''left'', ''left_fisheye_image''),
               (''right'', ''right_fisheye_image''),
               (''back'', ''back_fisheye_image'')]"
    using b(2) by (simp add: init_fields CAMERA_IMAGE_SOURCES_def)
  ultimately show ?thesis using m c l by blast
qed

section \<open>Claims about the selective fetch\<close>

lemma resolve_image_types_ok:
  "map (lookup_request t cam) tys = map Some rs \<Longrightarrow>
   resolve_image_types t cam tys (reqs, sts) = Inr (reqs @ rs, sts @ map (Pair cam) tys)"
proof (induction tys arbitrary: rs reqs sts)
  case Nil
  then show ?case by simp
next
  case (Cons ty tys)
  then obtain r rs' where rs: "rs = r # rs'" and r: "lookup_request t cam ty = Some r"
    and rest: "map (lookup_request t cam) tys = map Some rs'"
    by (cases rs) auto
  show ?case using Cons.IH [OF rest] by (simp add: r rs)
qed

lemma resolve_image_types_fail:
  "None \<in> set (map (lookup_request t cam) tys) \<Longrightarrow>
   \<exists>ty. resolve_image_types t cam tys acc = Inl ty"
proof (induction tys arbitrary: acc)
  case Nil
  then show ?case by simp
next
  case (Cons ty tys)
  obtain reqs sts where acc: "acc = (reqs, sts)" by (cases acc)
  show ?case
  proof (cases "lookup_request t cam ty")
    case None
    then show ?thesis by (simp add: acc)
  next
    case (Some r)
    then have "None \<in> set (map (lookup_request t cam) tys)" using Cons.prems by auto
    from Cons.IH [OF this] show ?thesis by (simp add: acc Some)
  qed
qed

lemma no_None_map_Some: "None \<notin> set xs \<Longrightarrow> \<exists>rs. xs = map Some rs"
proof (induction xs)
  case Nil
  then show ?case by simp
next
  case (Cons x xs)
  then obtain rs where "xs = map Some rs" by auto
  moreover obtain r where "x = Some r" using Cons.prems by (cases x) auto
  ultimately have "x # xs = map Some (r # rs)" by simp
  then show ?case by (rule exI)
qed

lemma selected_pairs_Cons:
  "selected_pairs ord (src # rest) =
     map (Pair (camera_name src)) (types_of ord src) @ selected_pairs ord rest"
  by (simp add: selected_pairs_def)

lemma lookup_pair_camera:
  "lookup_pair t \<circ> Pair cam = lookup_request t cam"
  "lookup_pair t (cam, ty) = lookup_request t cam ty"
  by (simp_all add: lookup_pair_def comp_def)

lemma build_requests_ok:
  "distinct (map camera_name srcs) \<Longrightarrow> camera_name ` set srcs \<inter> seen = {} \<Longrightarrow>
   map (lookup_pair t) (selected_pairs ord srcs) = map Some rs \<Longrightarrow>
   build_requests ord t srcs (reqs, sts) seen tr =
     (Some (reqs @ rs, sts @ selected_pairs ord srcs), tr)"
proof (induction srcs arbitrary: rs reqs sts seen)
  case Nil
  then show ?case by (simp add: selected_pairs_def)
next
  case (Cons src rest)
  let ?cam = "camera_name src"
  from Cons.prems(3) obtain rs1 rs2 where rs: "rs = rs1 @ rs2"
    and r1: "map (lookup_request t ?cam) (types_of ord src) = map Some rs1"
    and r2: "map (lookup_pair t) (selected_pairs ord rest) = map Some rs2"
    by (auto simp: selected_pairs_Cons lookup_pair_camera map_eq_append_conv
          append_eq_map_conv)
  have fresh: "?cam \<notin> seen" using Cons.prems(2) by auto
  have d: "distinct (map camera_name rest)" using Cons.prems(1) by simp
  have s: "camera_name ` set rest \<inter> insert ?cam seen = {}"
    using Cons.prems(1,2) by auto
  have step: "resolve_image_types t ?cam (types_of ord src) (reqs, sts) =
                Inr (reqs @ rs1, sts @ map (Pair ?cam) (types_of ord src))"
    by (rule resolve_image_types_ok [OF r1])
  show ?case
    using Cons.IH [OF d s r2, of "reqs @ rs1" "sts @ map (Pair ?cam) (types_of ord src)"]
      fresh step
    by (simp add: rs selected_pairs_Cons types_of_def)
qed

lemma build_requests_fail:
  "\<not> distinct (map camera_name srcs) \<or> camera_name ` set srcs \<inter> seen \<noteq> {} \<or>
     None \<in> set (map (lookup_pair t) (selected_pairs ord srcs)) \<Longrightarrow>
   \<exists>msg. build_requests ord t srcs acc seen tr = (None, logger_error msg tr)"
proof (induction srcs arbitrary: acc seen)
  case Nil
  then show ?case by (simp add: selected_pairs_def)
next
  case (Cons src rest)
  let ?cam = "camera_name src"
  show ?case
  proof (cases "?cam \<in> seen")
    case True
    then show ?thesis by auto
  next
    case False
    show ?thesis
    proof (cases "None \<in> set (map (lookup_request t ?cam) (types_of ord src))")
      case True
      from resolve_image_types_fail [OF this, of acc]
      obtain ty where "resolve_image_types t ?cam (types_of ord src) acc = Inl ty" by blast
      then show ?thesis using False by (auto simp: types_of_def)
    next
      case ok: False
      from no_None_map_Some [OF this] obtain rs1
        where r1: "map (lookup_request t ?cam) (types_of ord src) = map Some rs1" by blast
      obtain reqs sts where acc: "acc = (reqs, sts)" by (cases acc)
      have step: "resolve_image_types t ?cam (types_of ord src) (reqs, sts) =
                Inr (reqs @ rs1, sts @ map (Pair ?cam) (types_of ord src))"
        by (rule resolve_image_types_ok [OF r1])
      have "\<not> distinct (map camera_name rest) \<or>
            camera_name ` set rest \<inter> insert ?cam seen \<noteq> {} \<or>
            None \<in> set (map (lookup_pair t) (selected_pairs ord rest))"
        using Cons.prems False ok
        by (auto simp: selected_pairs_Cons lookup_pair_camera)
      from Cons.IH [OF this] show ?thesis
        using False step by (simp add: acc types_of_def)
    qed
  qed
qed

lemma make_entries_ok:
  "i + length sts \<le> length rs \<Longrightarrow>
   make_entries rs i sts result =
     Inr (result @ map (\<lambda>(p, r). ImageEntry (fst p) (snd p) r) (zip sts (drop i rs)))"
proof (induction sts arbitrary: i result)
  case Nil
  then show ?case by simp
next
  case (Cons p sts)
  obtain c ty where p: "p = (c, ty)" by (cases p)
  have i: "i < length rs" using Cons.prems by simp
  have d: "drop i rs = rs ! i # drop (Suc i) rs" using i by (simp add: Cons_nth_drop_Suc)
  have "Suc i + length sts \<le> length rs" using Cons.prems by simp
  from Cons.IH [OF this] show ?case using i by (simp add: p d item_def)
qed

lemma set_types_of:
  "set ord = IMAGE_TYPES \<Longrightarrow> set (types_of ord src) = requested_types src"
  by (simp add: types_of_def requested_types_def split: option.splits)

lemma set_selected_pairs:
  "set (selected_pairs ord srcs) =
     (\<Union>src \<in> set srcs. Pair (camera_name src) ` set (types_of ord src))"
  by (simp add: selected_pairs_def)

lemma lookup_echo_simps:
  "lookup_request (image_requests_by_camera (fst (init False echo_client True empty_trace)))
     ''frontleft'' ''visual'' =
     Some (build_image_request ''frontleft_fisheye_image'' 75 (Some FORMAT_JPEG)
             (Some PIXEL_FORMAT_RGB_U8))"
  "lookup_request (image_requests_by_camera (fst (init False echo_client True empty_trace)))
     ''back'' ''depth'' =
     Some (build_image_request ''back_depth'' 75 (Some FORMAT_RAW)
             (Some PIXEL_FORMAT_DEPTH_U16))"
  "lookup_request (image_requests_by_camera (fst (init False echo_client True empty_trace)))
     ''back'' ''depth_registered'' =
     Some (build_image_request ''back_depth_in_visual_frame'' 75 (Some FORMAT_RAW)
             (Some PIXEL_FORMAT_DEPTH_U16))"
  "lookup_request (image_requests_by_camera (fst (init False echo_client True empty_trace)))
     ''hand'' ''visual'' = None"
  by (simp_all add: lookup_init IMAGE_SOURCES_BY_CAMERA_def table_request_def startswith_simps)

text \<open>
  C3. If a camera name occurs in two selectors, or some requested (camera, image type)
  pair is not in the table of the object (an unknown camera, an unknown image type, or
  the hand camera on a robot without an arm), then \<open>get_images_by_cameras\<close> returns
  \<open>None\<close>, and the trace afterwards is the trace before plus one error entry in the log:
  no call has been made. A selector without image types requests all of \<open>IMAGE_TYPES\<close>,
  in whatever order the set is iterated.
\<close>

theorem selective_fetch_rejects:
  assumes "set types_order = IMAGE_TYPES"
    and "\<not> distinct (map camera_name srcs) \<or>
         (\<exists>src \<in> set srcs. \<exists>ty \<in> requested_types src.
            lookup_request (image_requests_by_camera self) (camera_name src) ty = None)"
  shows "\<exists>msg. get_images_by_cameras types_order self srcs tr =
           (Inr None, tr\<lparr>logged := logged tr @ [Error msg]\<rparr>)"
proof -
  let ?t = "image_requests_by_camera self"
  have "\<not> distinct (map camera_name srcs) \<or> camera_name ` set srcs \<inter> {} \<noteq> {} \<or>
        None \<in> set (map (lookup_pair ?t) (selected_pairs types_order srcs))"
  proof (cases "distinct (map camera_name srcs)")
    case False
    then show ?thesis by simp
  next
    case True
    with assms(2) obtain src ty where src: "src \<in> set srcs" and ty: "ty \<in> requested_types src"
      and n: "lookup_request ?t (camera_name src) ty = None" by blast
    have "(camera_name src, ty) \<in> set (selected_pairs types_order srcs)"
      using src ty by (auto simp: set_selected_pairs set_types_of [OF assms(1)])
    moreover have "lookup_pair ?t (camera_name src, ty) = None"
      using n by (simp add: lookup_pair_def)
    ultimately have "None \<in> lookup_pair ?t ` set (selected_pairs types_order srcs)"
      by (metis imageI)
    then show ?thesis by simp
  qed
  from build_requests_fail [OF this, of "([], [])" tr]
  obtain msg where "build_requests types_order ?t srcs ([], []) {} tr =
                      (None, logger_error msg tr)" by blast
  then have "get_images_by_cameras types_order self srcs tr =
               (Inr None, tr\<lparr>logged := logged tr @ [Error msg]\<rparr>)"
    by (simp add: get_images_by_cameras_def logger_error_def)
  then show ?thesis by (rule exI)
qed

theorem selective_fetch_rejects_witness:
  "set types_order0 = IMAGE_TYPES
   \<and> ''visual'' \<in> requested_types \<lparr>camera_name = ''hand'', image_types = Some [''visual'']\<rparr>
   \<and> lookup_request (image_requests_by_camera (fst (init False echo_client True empty_trace)))
        ''hand'' ''visual'' = None
   \<and> (\<exists>msg. get_images_by_cameras types_order0 (fst (init False echo_client True empty_trace))
               [\<lparr>camera_name = ''hand'', image_types = Some [''visual'']\<rparr>] empty_trace =
             (Inr None, empty_trace\<lparr>logged := logged empty_trace @ [Error msg]\<rparr>))
   \<and> \<not> distinct (map camera_name
          [\<lparr>camera_name = ''left'', image_types = None\<rparr>,
           \<lparr>camera_name = ''left'', image_types = Some [''depth'']\<rparr>])
   \<and> (\<exists>msg. get_images_by_cameras types_order0 (fst (init False echo_client True empty_trace))
               [\<lparr>camera_name = ''left'', image_types = None\<rparr>,
                \<lparr>camera_name = ''left'', image_types = Some [''depth'']\<rparr>] empty_trace =
             (Inr None, empty_trace\<lparr>logged := logged empty_trace @ [Error msg]\<rparr>))"
proof -
  let ?self = "fst (init False echo_client True empty_trace)"
  let ?hand = "[\<lparr>camera_name = ''hand'', image_types = Some [''visual'']\<rparr>]"
  let ?dup = "[\<lparr>camera_name = ''left'', image_types = None\<rparr>,
               \<lparr>camera_name = ''left'', image_types = Some [''depth'']\<rparr>]"
  have o: "set types_order0 = IMAGE_TYPES"
    by (auto simp: types_order0_def IMAGE_TYPES_def)
  have h: "\<exists>src \<in> set ?hand. \<exists>ty \<in> requested_types src.
             lookup_request (image_requests_by_camera ?self) (camera_name src) ty = None"
    by (simp add: requested_types_def lookup_echo_simps)
  have d: "\<not> distinct (map camera_name ?dup)" by simp
  note a = selective_fetch_rejects [OF o disjI2 [OF h], of empty_trace]
  note b = selective_fetch_rejects [OF o disjI1 [OF d], of ?self empty_trace]
  have v: "''visual'' \<in> requested_types \<lparr>camera_name = ''hand'', image_types = Some [''visual'']\<rparr>"
    by (simp add: requested_types_def)
  show ?thesis using o v lookup_echo_simps(4) d a b by blast
qed

text \<open>
  C4. The claim: for every selector list with explicit image types, one request per
  (camera, image type) pair is sent, in the caller's order, and one tagged entry per
  request comes back. As stated this fails on a selector list that the validation
  rejects: with two selectors for \<open>frontleft\<close> nothing is sent and the result is \<open>None\<close>.
\<close>

theorem selective_fetch_duplicate_camera_counterexample:
  "get_images_by_cameras [''visual'', ''depth'', ''depth_registered'']
     (fst (init False echo_client True empty_trace))
     [\<lparr>camera_name = ''frontleft'', image_types = Some [''visual'']\<rparr>,
      \<lparr>camera_name = ''frontleft'', image_types = Some [''depth'']\<rparr>]
     empty_trace =
   (Inr None, \<lparr>logged = [Error ''Duplicated camera source for camera frontleft''],
               rpc_calls = []\<rparr>)"
  by (simp add: get_images_by_cameras_def lookup_echo_simps lookup_init
        IMAGE_SOURCES_BY_CAMERA_def table_request_def startswith_simps
        logger_error_def empty_trace_def duplicated_message_def)

text \<open>
  C4, amended. For every selector list with explicit image types that passes the
  validation (no camera named twice, every pair in the table), when the client answers
  the batch with at least one response per request: exactly one call is made, its batch
  is the table's request of each pair in the caller's order, nothing is logged, and the
  result is one entry per pair in the same order, tagged with the camera and the image
  type and holding the response at the same position of the response list.
\<close>

theorem selective_fetch_order:
  assumes "\<forall>src \<in> set srcs. image_types src \<noteq> None"
    and "distinct (map camera_name srcs)"
    and "map (lookup_pair (image_requests_by_camera self)) (selected_pairs types_order srcs) =
           map Some reqs"
    and "image_client self reqs = Inr rs"
    and "length reqs \<le> length rs"
  shows "get_images_by_cameras types_order self srcs tr =
           (Inr (Some (map (\<lambda>(p, r). ImageEntry (fst p) (snd p) r)
                         (zip (selected_pairs types_order srcs) rs))),
            tr\<lparr>rpc_calls := rpc_calls tr @ [reqs]\<rparr>)"
proof -
  let ?t = "image_requests_by_camera self"
  have s: "camera_name ` set srcs \<inter> {} = {}" by simp
  have b: "build_requests types_order ?t srcs ([], []) {} tr =
             (Some (reqs, selected_pairs types_order srcs), tr)"
    using build_requests_ok [OF assms(2) s assms(3), of "[]" "[]" tr] by simp
  have "length (selected_pairs types_order srcs) = length reqs"
    using arg_cong [OF assms(3), of length] by simp
  then have "0 + length (selected_pairs types_order srcs) \<le> length rs"
    using assms(5) by simp
  from make_entries_ok [OF this, of "[]"]
  show ?thesis
    by (simp add: get_images_by_cameras_def b get_image_def assms(4))
qed

theorem selective_fetch_order_witness:
  "distinct (map camera_name
        [\<lparr>camera_name = ''frontleft'', image_types = Some [''visual'']\<rparr>,
         \<lparr>camera_name = ''back'', image_types = Some [''depth'', ''depth_registered'']\<rparr>])
   \<and> get_images_by_cameras types_order0 (fst (init False echo_client True empty_trace))
        [\<lparr>camera_name = ''frontleft'', image_types = Some [''visual'']\<rparr>,
         \<lparr>camera_name = ''back'', image_types = Some [''depth'', ''depth_registered'']\<rparr>]
        empty_trace =
      (Inr (Some [ImageEntry ''frontleft'' ''visual'' ''frontleft_fisheye_image'',
                  ImageEntry ''back'' ''depth'' ''back_depth'',
                  ImageEntry ''back'' ''depth_registered'' ''back_depth_in_visual_frame'']),
       \<lparr>logged = [],
        rpc_calls =
          [[build_image_request ''frontleft_fisheye_image'' 75 (Some FORMAT_JPEG)
              (Some PIXEL_FORMAT_RGB_U8),
            build_image_request ''back_depth'' 75 (Some FORMAT_RAW)
              (Some PIXEL_FORMAT_DEPTH_U16),
            build_image_request ''back_depth_in_visual_frame'' 75 (Some FORMAT_RAW)
              (Some PIXEL_FORMAT_DEPTH_U16)]]\<rparr>)"
proof -
  let ?self = "fst (init False echo_client True empty_trace)"
  let ?srcs = "[\<lparr>camera_name = ''frontleft'', image_types = Some [''visual'']\<rparr>,
                \<lparr>camera_name = ''back'', image_types = Some [''depth'', ''depth_registered'']\<rparr>]"
  let ?reqs = "[build_image_request ''frontleft_fisheye_image'' 75 (Some FORMAT_JPEG)
                  (Some PIXEL_FORMAT_RGB_U8),
                build_image_request ''back_depth'' 75 (Some FORMAT_RAW)
                  (Some PIXEL_FORMAT_DEPTH_U16),
                build_image_request ''back_depth_in_visual_frame'' 75 (Some FORMAT_RAW)
                  (Some PIXEL_FORMAT_DEPTH_U16)]"
  let ?rs = "[''frontleft_fisheye_image'', ''back_depth'', ''back_depth_in_visual_frame'']"
  have e: "\<forall>src \<in> set ?srcs. image_types src \<noteq> None" by simp
  have d: "distinct (map camera_name ?srcs)" by simp
  have p: "selected_pairs types_order0 ?srcs =
             [(''frontleft'', ''visual''), (''back'', ''depth''), (''back'', ''depth_registered'')]"
    by (simp add: selected_pairs_def types_of_def)
  have l: "map (lookup_pair (image_requests_by_camera ?self)) (selected_pairs types_order0 ?srcs)
             = map Some ?reqs"
    by (simp add: p lookup_pair_def lookup_echo_simps)
  have c: "image_client ?self ?reqs = Inr ?rs"
    by (simp add: init_fields echo_client_def build_image_request_def)
  have n: "length ?reqs \<le> length ?rs" by simp
  from selective_fetch_order [OF e d l c n, of empty_trace]
  have "get_images_by_cameras types_order0 ?self ?srcs empty_trace =
          (Inr (Some [ImageEntry ''frontleft'' ''visual'' ''frontleft_fisheye_image'',
                  ImageEntry ''back'' ''depth'' ''back_depth'',
                  ImageEntry ''back'' ''depth_registered'' ''back_depth_in_visual_frame'']),
           \<lparr>logged = [], rpc_calls = [?reqs]\<rparr>)"
    by (simp add: p empty_trace_def)
  with d show ?thesis by blast
qed

text \<open>
  C9. With an empty selector list \<open>get_images_by_cameras\<close> still makes exactly one call,
  with an empty batch; when the client answers that call with a response list, the result
  is the empty list \<open>Some []\<close>, not \<open>None\<close>, and nothing is logged.
\<close>

theorem selective_fetch_empty_selectors:
  "rpc_calls (snd (get_images_by_cameras types_order self [] tr)) = rpc_calls tr @ [[]]
   \<and> (image_client self [] = Inr rs \<longrightarrow>
        get_images_by_cameras types_order self [] tr =
          (Inr (Some []), tr\<lparr>rpc_calls := rpc_calls tr @ [[]]\<rparr>))"
  by (simp add: get_images_by_cameras_def get_image_def logger_error_def
        split: sum.splits exn.splits)

theorem selective_fetch_empty_selectors_witness:
  "image_client (fst (init False echo_client True empty_trace)) [] = Inr []
   \<and> get_images_by_cameras types_order0 (fst (init False echo_client True empty_trace)) []
        empty_trace =
      (Inr (Some []), \<lparr>logged = [], rpc_calls = [[]]\<rparr>)"
  using selective_fetch_empty_selectors
    [of types_order0 "fst (init False echo_client True empty_trace)" empty_trace "[]"]
  by (simp add: init_fields echo_client_def empty_trace_def)

end
